theory Spec2Isabelle
  imports Main "HOL-Library.Sublist"
begin

section \<open>Strings of the host language\<close>

text \<open>
  A JavaScript string is a sequence of UTF-16 code units and \<open>length\<close> counts code units.
  The model uses \<^typ>\<open>string\<close> with one \<^typ>\<open>char\<close> per code unit, which covers the code
  units U+0000 to U+00FF (ASCII and the Latin-1 supplement).  On this range
  \<open>toLowerCase\<close> maps \<open>A\<close>-\<open>Z\<close> and U+00C0-U+00DE (without the multiplication sign U+00D7) to
  the code unit 32 above and leaves every other code unit alone.
\<close>

definition lowerChar :: "char \<Rightarrow> char" where
  "lowerChar c =
     (let n = (of_char c :: nat)
      in if (65 \<le> n \<and> n \<le> 90) \<or> (192 \<le> n \<and> n \<le> 222 \<and> n \<noteq> 215)
         then char_of (n + 32) else c)"

definition toLowerCase :: "string \<Rightarrow> string" where
  "toLowerCase s = map lowerChar s"

definition startsWith :: "string \<Rightarrow> string \<Rightarrow> bool" where
  "startsWith s p = prefix p s"

definition endsWith :: "string \<Rightarrow> string \<Rightarrow> bool" where
  "endsWith s p = suffix p s"

definition includesStr :: "string \<Rightarrow> string \<Rightarrow> bool" where
  "includesStr s t = sublist t s"

text \<open>
  \<open>String.prototype.trim\<close> removes white space and line terminators at both ends; in the
  modelled range these are TAB, LF, VT, FF, CR, SPACE and NO-BREAK SPACE.
\<close>

definition isWhiteSpace :: "char \<Rightarrow> bool" where
  "isWhiteSpace c = ((of_char c :: nat) \<in> {9, 10, 11, 12, 13, 32, 160})"

definition trim :: "string \<Rightarrow> string" where
  "trim s = rev (dropWhile isWhiteSpace (rev (dropWhile isWhiteSpace s)))"

text \<open>\<open>s.split(c)\<close> for a one-character separator: never empty, \<open>"".split("/")\<close> is \<open>[""]\<close>.\<close>

fun split :: "char \<Rightarrow> string \<Rightarrow> string list" where
  "split c [] = [[]]"
| "split c (x # xs) =
     (if x = c then [] # split c xs
      else (case split c xs of [] \<Rightarrow> [[x]] | y # ys \<Rightarrow> (x # y) # ys))"

section \<open>File records\<close>

text \<open>
  \<open>content\<close> is what the \<open>FileReader\<close> delivered: a string (\<open>readAsText\<close>,
  \<open>readAsDataURL\<close>) or an \<open>ArrayBuffer\<close> (\<open>readAsArrayBuffer\<close>).
\<close>

datatype payload = Str string | Buf "nat list"

text \<open>
  The object literal built in \<open>processFileAsync\<close>.  \<open>fid\<close>, \<open>fsize\<close> and \<open>ftype\<close> are the
  fields \<open>id\<close>, \<open>size\<close> and \<open>type\<close>; \<open>id\<close> is an opaque number that is only compared with
  \<open>===\<close>.  The fields \<open>addedAt\<close> and \<open>status\<close> are never read by the operations below and
  are left out.
\<close>

record fileObj =
  fid :: nat
  name :: string
  fsize :: nat
  ftype :: string
  lastModified :: int
  relativePath :: string
  content :: payload
  isImage :: bool
  isVideo :: bool
  isAudio :: bool
  isBinary :: bool
  isHTML :: bool

text \<open>\<open>Array.prototype.find\<close> returns the first element that satisfies the predicate;
  the caller then assigns to fields of that object, which stays where it is in the array.\<close>

fun updateFirst :: "('a \<Rightarrow> bool) \<Rightarrow> ('a \<Rightarrow> 'a) \<Rightarrow> 'a list \<Rightarrow> 'a list" where
  "updateFirst P g [] = []"
| "updateFirst P g (x # xs) = (if P x then g x # xs else x # updateFirst P g xs)"

section \<open>The document\<close>

text \<open>
  The operations look their input elements up by id (\<open>name-input-<id>\<close>,
  \<open>content-textarea-<id>\<close>, ...).  The document is an input of the operations; it is
  given as the list of (kind, record id) pairs of its elements with an id of one of the
  six kinds below.  The
  browser builds it from the markup of \<open>createFileBlock\<close> and \<open>createFileContentDisplay\<close>,
  into which names, paths and contents are interpolated as they are; the markup and its
  parsing are not part of the model.
\<close>

datatype elemKind = NameDisplay | NameInput | Preview | Code | ContentDisplay | ContentTextarea

type_synonym dom = "(elemKind \<times> nat) list"

definition getElementById :: "dom \<Rightarrow> elemKind \<Rightarrow> nat \<Rightarrow> bool" where
  "getElementById d k i = ((k, i) \<in> set d)"

text \<open>
  The classification that selects the rendering strategy, read off the branch order of
  \<open>createFileContentDisplay\<close> and \<open>createMediaPreview\<close>.
\<close>

datatype mediaType = Html | Image | Video | Audio | Binary | Text

definition mediaTypeOf :: "fileObj \<Rightarrow> mediaType" where
  "mediaTypeOf file =
     (if isHTML file then Html
      else if isImage file then Image
      else if isVideo file then Video
      else if isAudio file then Audio
      else if isBinary file then Binary
      else Text)"

section \<open>Rename and content edit\<close>

datatype toast =
    NameElementsNotFound | ContentElementsNotFound | FileNotFound
  | FilenameEmpty | InvalidCharacters | RenamedTo string | ContentUpdated

text \<open>The character class \<open>[<>:"/\\|?*]\<close> of \<open>saveFileName\<close>.\<close>

definition renameInvalidChar :: "char \<Rightarrow> bool" where
  "renameInvalidChar c =
     (c \<in> {CHR ''<'', CHR ''>'', CHR '':'', CHR 0x22, CHR ''/'', CHR 0x5C, CHR ''|'',
            CHR ''?'', CHR ''*''})"

definition renameInvalidChars :: "string \<Rightarrow> bool" where
  "renameInvalidChars s = list_ex renameInvalidChar s"

text \<open>
  \<open>saveFileName(fileId)\<close>, with the document and the value of the name input as
  arguments; the result is the toast shown and the record array afterwards.  The first
  test is \<open>!nameDisplay || !nameInput\<close>: one of the two elements is missing.
\<close>

definition saveFileName :: "dom \<Rightarrow> string \<Rightarrow> nat \<Rightarrow> fileObj list \<Rightarrow> toast \<times> fileObj list" where
  "saveFileName d inputValue fileId files =
     (if \<not> (getElementById d NameDisplay fileId \<and> getElementById d NameInput fileId)
      then (NameElementsNotFound, files)
      else case find (\<lambda>f. fid f = fileId) files of
        None \<Rightarrow> (FileNotFound, files)
      | Some file \<Rightarrow>
          (let newName = trim inputValue
           in if newName = [] then (FilenameEmpty, files)
              else if renameInvalidChars newName then (InvalidCharacters, files)
              else (RenamedTo newName,
                    updateFirst (\<lambda>f. fid f = fileId)
                      (\<lambda>f. f\<lparr>name := newName, relativePath := newName\<rparr>) files)))"

text \<open>
  \<open>saveFileContent(fileId)\<close>.  The value of a textarea is always a string, so the test for
  \<open>undefined\<close> and \<open>null\<close> never fires; \<open>size\<close> becomes \<open>newContent.length\<close>.
\<close>

definition saveFileContent :: "dom \<Rightarrow> string \<Rightarrow> nat \<Rightarrow> fileObj list \<Rightarrow> toast \<times> fileObj list" where
  "saveFileContent d newContent fileId files =
     (if \<not> (getElementById d ContentDisplay fileId \<and> getElementById d ContentTextarea fileId)
      then (ContentElementsNotFound, files)
      else case find (\<lambda>f. fid f = fileId) files of
        None \<Rightarrow> (FileNotFound, files)
      | Some file \<Rightarrow>
          (ContentUpdated,
           updateFirst (\<lambda>f. fid f = fileId)
             (\<lambda>f. f\<lparr>content := Str newContent, fsize := length newContent\<rparr>) files))"

section \<open>Ingestion\<close>

text \<open>
  One entry of the \<open>FileList\<close> handed to \<open>handleFileSelect\<close>, together with what the
  environment contributes while the entry is processed: whether the \<open>FileReader\<close> fires
  \<open>onload\<close> (\<open>rd_ok\<close>; otherwise \<open>onerror\<close>, \<open>onabort\<close> or the timeout), what each
  read method delivers, and the value of \<open>Date.now() + Math.random()\<close> (\<open>new_id\<close>).
  \<open>in_relativePath\<close> is \<open>None\<close> for an entry without that property (file picker).
\<close>

record fileInput =
  in_name :: string
  in_size :: nat
  in_type :: string
  in_lastModified :: int
  in_relativePath :: "string option"
  rd_ok :: bool
  rd_dataURL :: string
  rd_arrayBuffer :: "nat list"
  rd_text :: string
  new_id :: nat

definition maxFileSize :: nat where
  "maxFileSize = 50 * 1024 * 1024"

definition allowedTypes :: "string list" where
  "allowedTypes =
     [''text/plain'', ''text/html'', ''text/css'', ''text/javascript'', ''application/json'',
      ''text/markdown'', ''text/xml'', ''text/csv'', ''image/jpeg'', ''image/png'',
      ''image/gif'', ''image/svg+xml'', ''video/mp4'', ''audio/mp3'', ''application/pdf'']"

definition textExtensions :: "string list" where
  "textExtensions =
     [''.txt'', ''.md'', ''.js'', ''.ts'', ''.jsx'', ''.tsx'', ''.css'', ''.scss'', ''.html'',
      ''.xml'', ''.json'', ''.yaml'', ''.yml'', ''.py'', ''.java'', ''.cpp'', ''.c'', ''.php'',
      ''.rb'', ''.go'', ''.sql'', ''.sh'']"

text \<open>\<open>s.lastIndexOf(c)\<close>, with \<open>None\<close> for \<open>-1\<close>.\<close>

definition lastIndexOf :: "string \<Rightarrow> char \<Rightarrow> nat option" where
  "lastIndexOf s c =
     (case filter (\<lambda>i. s ! i = c) (rev [0..<length s]) of [] \<Rightarrow> None | i # _ \<Rightarrow> Some i)"

text \<open>\<open>substring(-1)\<close> is \<open>substring(0)\<close>: a name without a dot is its own extension.\<close>

definition isTextFile :: "string \<Rightarrow> bool" where
  "isTextFile filename =
     (let ext = (case lastIndexOf filename CHR ''.'' of
                   None \<Rightarrow> toLowerCase filename
                 | Some i \<Rightarrow> drop i (toLowerCase filename))
      in ext \<in> set textExtensions)"

definition binaryTypes :: "string list" where
  "binaryTypes =
     [''application/pdf'', ''application/zip'', ''application/x-rar-compressed'',
      ''application/x-7z-compressed'', ''application/vnd.ms-excel'',
      ''application/vnd.openxmlformats-officedocument.spreadsheetml.sheet'',
      ''application/octet-stream'']"

definition isBinaryFile :: "string \<Rightarrow> bool" where
  "isBinaryFile t = (if t = [] then False else t \<in> set binaryTypes \<or> includesStr t ''binary'')"

text \<open>The duplicate test of the validation loop: \<open>this.files.some(...)\<close>.\<close>

definition isDuplicate :: "fileObj list \<Rightarrow> fileInput \<Rightarrow> bool" where
  "isDuplicate files file =
     list_ex (\<lambda>f. name f = in_name file \<and> fsize f = in_size file \<and>
                   \<bar>lastModified f - in_lastModified file\<bar> < 1000) files"

text \<open>The character class \<open>[<>:"/\\|?*\x00-\x1f]\<close> of the validation loop.\<close>

definition ingestInvalidChar :: "char \<Rightarrow> bool" where
  "ingestInvalidChar c = (renameInvalidChar c \<or> (of_char c :: nat) \<le> 31)"

datatype rejection =
  EmptyFile | FileTooLarge | UnsupportedFileType | FileAlreadyExists | InvalidFilename

text \<open>The body of the validation loop: the first failing check rejects the entry.\<close>

definition validateEntry :: "fileObj list \<Rightarrow> fileInput \<Rightarrow> rejection option" where
  "validateEntry files file =
     (if in_size file = 0 then Some EmptyFile
      else if in_size file > maxFileSize then Some FileTooLarge
      else if in_type file \<notin> set allowedTypes \<and> \<not> isTextFile (in_name file)
        then Some UnsupportedFileType
      else if isDuplicate files file then Some FileAlreadyExists
      else if list_ex ingestInvalidChar (in_name file) then Some InvalidFilename
      else None)"

datatype readerMethod = ReadAsDataURL | ReadAsArrayBuffer | ReadAsText

definition readerMethodOf :: "fileInput \<Rightarrow> readerMethod" where
  "readerMethodOf file =
     (if startsWith (in_type file) ''image/'' \<or> startsWith (in_type file) ''video/''
         \<or> startsWith (in_type file) ''audio/'' then ReadAsDataURL
      else if isBinaryFile (in_type file) then ReadAsArrayBuffer
      else ReadAsText)"

definition readerResult :: "fileInput \<Rightarrow> payload" where
  "readerResult file =
     (case readerMethodOf file of
        ReadAsDataURL \<Rightarrow> Str (rd_dataURL file)
      | ReadAsArrayBuffer \<Rightarrow> Buf (rd_arrayBuffer file)
      | ReadAsText \<Rightarrow> Str (rd_text file))"

text \<open>The object literal of \<open>reader.onload\<close>; \<open>a || b\<close> on strings takes \<open>b\<close> when \<open>a\<close> is
  empty or missing.\<close>

definition mkFileObj :: "fileInput \<Rightarrow> fileObj" where
  "mkFileObj file =
     \<lparr> fid = new_id file,
       name = in_name file,
       fsize = in_size file,
       ftype = (if in_type file = [] then ''application/octet-stream'' else in_type file),
       lastModified = in_lastModified file,
       relativePath = (case in_relativePath file of
                         None \<Rightarrow> in_name file
                       | Some p \<Rightarrow> if p = [] then in_name file else p),
       content = readerResult file,
       isImage = (startsWith (in_type file) ''image/'' \<and> \<not> endsWith (in_name file) ''.svg''),
       isVideo = startsWith (in_type file) ''video/'',
       isAudio = startsWith (in_type file) ''audio/'',
       isBinary = isBinaryFile (in_type file),
       isHTML = (endsWith (in_name file) ''.html'' \<or> endsWith (in_name file) ''.htm'') \<rparr>"

text \<open>\<open>processFileAsync\<close>: a successful read pushes the new record; a failed one rejects
  the promise and the array stays as it is.\<close>

definition processFileAsync :: "fileObj list \<Rightarrow> fileInput \<Rightarrow> fileObj list" where
  "processFileAsync files file = (if rd_ok file then files @ [mkFileObj file] else files)"

text \<open>
  \<open>handleFileSelect\<close>: every entry is validated against the array as it is when the batch
  starts; only then are the valid entries read and pushed, one after the other.  No other
  handler is taken to run between the reads of one batch.
\<close>

definition handleFileSelect :: "bool \<Rightarrow> fileObj list \<Rightarrow> fileInput list \<Rightarrow> fileObj list" where
  "handleFileSelect isProcessing files batch =
     (if batch = [] then files
      else if isProcessing then files
      else let validFiles = filter (\<lambda>file. validateEntry files file = None) batch
           in foldl processFileAsync files validFiles)"

section \<open>Search\<close>

text \<open>\<open>text.indexOf(term, pos)\<close> for \<open>pos \<ge> 0\<close>, with \<open>None\<close> for \<open>-1\<close>.\<close>

function indexOf :: "string \<Rightarrow> string \<Rightarrow> nat \<Rightarrow> nat option" where
  "indexOf str searchString pos =
     (if searchString = [] then Some (min pos (length str))
      else if length str < pos + length searchString then None
      else if take (length searchString) (drop pos str) = searchString then Some pos
      else indexOf str searchString (Suc pos))"
  by pat_completeness auto
termination
proof (relation "measure (\<lambda>(str, searchString, pos). length str - pos)")
  show "wf (measure (\<lambda>(str, searchString, pos). length str - pos))" by simp
next
  fix str searchString :: string and pos :: nat
  assume "searchString \<noteq> []" and "\<not> length str < pos + length searchString"
  moreover from \<open>searchString \<noteq> []\<close> have "0 < length searchString" by simp
  ultimately have "pos < length str" by linarith
  then show "((str, searchString, Suc pos), (str, searchString, pos))
             \<in> measure (\<lambda>(str, searchString, pos). length str - pos)"
    by simp
qed

declare indexOf.simps [simp del]

lemma indexOf_bounds:
  "indexOf str s pos = Some j \<Longrightarrow> s \<noteq> [] \<Longrightarrow> pos \<le> j \<and> j < length str"
proof (induction str s pos rule: indexOf.induct)
  case (1 str s pos)
  note unfold = indexOf.simps [of str s pos]
  show ?case
  proof (cases "length str < pos + length s")
    case True
    with "1.prems" unfold show ?thesis by simp
  next
    case False
    note inside = this
    from "1.prems"(2) have "0 < length s" by simp
    with inside have pos_lt: "pos < length str" by linarith
    show ?thesis
    proof (cases "take (length s) (drop pos str) = s")
      case True
      with "1.prems" inside unfold have "j = pos" by simp
      with pos_lt show ?thesis by simp
    next
      case False
      with "1.prems" inside unfold have "indexOf str s (Suc pos) = Some j" by simp
      with "1.IH" "1.prems"(2) inside False have "Suc pos \<le> j \<and> j < length str" by simp
      then show ?thesis by simp
    qed
  qed
qed

text \<open>
  The \<open>while\<close> loop of \<open>getMatchPositions\<close> with its two variables.  The loop is entered
  with a non-empty term only (the guard \<open>!searchTerm\<close> returns before it); the test is
  repeated in the loop function, which is total that way.
\<close>

function matchLoop :: "string \<Rightarrow> string \<Rightarrow> nat option \<Rightarrow> nat list \<Rightarrow> nat list" where
  "matchLoop lowerText searchTerm None matches = matches"
| "matchLoop lowerText searchTerm (Some i) matches =
     (if searchTerm = [] then matches
      else matchLoop lowerText searchTerm (indexOf lowerText searchTerm (Suc i)) (matches @ [i]))"
  by pat_completeness auto
termination
proof (relation "measure (\<lambda>(lowerText, searchTerm, index, matches).
                   case index of None \<Rightarrow> 0 | Some i \<Rightarrow> Suc (length lowerText - i))")
  show "wf (measure (\<lambda>(lowerText, searchTerm, index, matches).
                   case index of None \<Rightarrow> 0 | Some i \<Rightarrow> Suc (length lowerText - i)))"
    by simp
next
  fix lowerText searchTerm :: string and i :: nat and matches :: "nat list"
  assume ne: "searchTerm \<noteq> []"
  show "((lowerText, searchTerm, indexOf lowerText searchTerm (Suc i), matches @ [i]),
         (lowerText, searchTerm, Some i, matches))
        \<in> measure (\<lambda>(lowerText, searchTerm, index, matches).
                   case index of None \<Rightarrow> 0 | Some i \<Rightarrow> Suc (length lowerText - i))"
  proof (cases "indexOf lowerText searchTerm (Suc i)")
    case None
    then show ?thesis by simp
  next
    case (Some j)
    from indexOf_bounds [OF Some ne] have "Suc i \<le> j" and "j < length lowerText"
      by simp_all
    then have "length lowerText - j < length lowerText - i" by linarith
    with Some show ?thesis by simp
  qed
qed

definition getMatchPositions :: "string \<Rightarrow> string \<Rightarrow> nat list" where
  "getMatchPositions str searchTerm =
     (if str = [] \<or> searchTerm = [] then []
      else let lowerText = toLowerCase str
           in matchLoop lowerText searchTerm (indexOf lowerText searchTerm 0) [])"

datatype matchField = NameField | ContentField

record searchMatch =
  fileId :: nat
  mtype :: matchField
  position :: nat
  matchIndex :: nat

text \<open>\<open>positions.forEach((position, index) => this.searchMatches.push({...}))\<close>.\<close>

definition pushMatches :: "nat \<Rightarrow> matchField \<Rightarrow> nat list \<Rightarrow> searchMatch list" where
  "pushMatches i fld positions =
     map (\<lambda>(index, p). \<lparr> fileId = i, mtype = fld, position = p, matchIndex = index \<rparr>)
       (zip [0..<length positions] positions)"

text \<open>The body of the \<open>forEach\<close> over the records: what one record appends.\<close>

definition matchesOfFile :: "string \<Rightarrow> fileObj \<Rightarrow> searchMatch list" where
  "matchesOfFile searchTerm file =
     pushMatches (fid file) NameField (getMatchPositions (name file) searchTerm)
     @ (case content file of
          Str s \<Rightarrow> if \<not> isBinary file
                   then pushMatches (fid file) ContentField (getMatchPositions s searchTerm)
                   else []
        | Buf _ \<Rightarrow> [])"

definition findAllMatches :: "string \<Rightarrow> fileObj list \<Rightarrow> searchMatch list" where
  "findAllMatches searchTerm files =
     foldl (\<lambda>searchMatches file. searchMatches @ matchesOfFile searchTerm file) [] files"

text \<open>\<open>handleSearch\<close> stores the lower-cased value of the search box as the term.\<close>

definition handleSearch :: "string \<Rightarrow> string" where
  "handleSearch searchValue = toLowerCase searchValue"

text \<open>The record filter at the head of \<open>renderFiles\<close>.\<close>

definition filteredFiles :: "string \<Rightarrow> fileObj list \<Rightarrow> fileObj list" where
  "filteredFiles searchTerm files =
     (if searchTerm = [] then files
      else filter (\<lambda>file. includesStr (toLowerCase (name file)) searchTerm \<or>
                          (case content file of
                             Str s \<Rightarrow> includesStr (toLowerCase s) searchTerm
                           | Buf _ \<Rightarrow> False)) files)"

section \<open>Tree view\<close>







section \<open>Reordering by drag and drop\<close>


section \<open>Notions of the specification\<close>

text \<open>Two records are equivalent for the duplicate test when they agree in name and size
  and their modification times are less than 1000 ms apart.\<close>

definition equivalent :: "fileObj \<Rightarrow> fileObj \<Rightarrow> bool" where
  "equivalent f g =
     (name f = name g \<and> fsize f = fsize g \<and> \<bar>lastModified f - lastModified g\<bar> < 1000)"

fun noDuplicates :: "fileObj list \<Rightarrow> bool" where
  "noDuplicates [] = True"
| "noDuplicates (f # fs) = (\<not> list_ex (equivalent f) fs \<and> noDuplicates fs)"

text \<open>All positions at which a term occurs in a text, in increasing order.\<close>

definition occurrences :: "string \<Rightarrow> string \<Rightarrow> nat list" where
  "occurrences s t = filter (\<lambda>i. take (length t) (drop i s) = t) [0..<length s]"

text \<open>A text contains a term case-insensitively when the lower-cased term is a
  contiguous part of the lower-cased text.\<close>

definition containsCI :: "string \<Rightarrow> string \<Rightarrow> bool" where
  "containsCI s t = (\<exists>before after. toLowerCase s = before @ toLowerCase t @ after)"

text \<open>
  The number of bytes of a string in UTF-8, the encoding in which \<open>readAsText\<close> decodes a
  file and \<open>Blob\<close> writes one: one byte for a code unit below U+0080, two bytes for the
  others of the modelled range.
\<close>

definition utf8Length :: "string \<Rightarrow> nat" where
  "utf8Length s = (\<Sum>c\<leftarrow>s. if (of_char c :: nat) < 128 then 1 else 2)"

text \<open>What a recomputation of the matches collects for one record: the occurrences in the
  name and, when the content is a string and the record is not flagged binary, the
  occurrences in the content.\<close>

definition nameMatches :: "string \<Rightarrow> fileObj \<Rightarrow> searchMatch list" where
  "nameMatches t file = pushMatches (fid file) NameField (occurrences (toLowerCase (name file)) t)"

definition contentMatches :: "string \<Rightarrow> fileObj \<Rightarrow> searchMatch list" where
  "contentMatches t file =
     (case content file of
        Str s \<Rightarrow> if isBinary file then []
                 else pushMatches (fid file) ContentField (occurrences (toLowerCase s) t)
      | Buf _ \<Rightarrow> [])"

section \<open>Example records\<close>

definition notesTxt :: fileObj where
  "notesTxt =
     \<lparr> fid = 1, name = ''notes.txt'', fsize = 5, ftype = ''text/plain'', lastModified = 0,
       relativePath = ''docs/notes.txt'', content = Str ''hello'',
       isImage = False, isVideo = False, isAudio = False, isBinary = False, isHTML = False \<rparr>"

definition logoPng :: fileObj where
  "logoPng =
     \<lparr> fid = 2, name = ''logo.png'', fsize = 5, ftype = ''image/png'', lastModified = 0,
       relativePath = ''docs/logo.png'', content = Str ''data:image/png;base64,aGVsbG8='',
       isImage = True, isVideo = False, isAudio = False, isBinary = False, isHTML = False \<rparr>"

definition draftTxt :: fileObj where
  "draftTxt =
     \<lparr> fid = 3, name = ''draft.txt'', fsize = 5, ftype = ''text/plain'', lastModified = 0,
       relativePath = ''draft.txt'', content = Str ''world'',
       isImage = False, isVideo = False, isAudio = False, isBinary = False, isHTML = False \<rparr>"


text \<open>
  The documents of the list view for some of these records.  The block of a record has
  \<open>name-display\<close> and \<open>name-input\<close>; the text branch of the content markup adds
  \<open>content-display\<close> and \<open>content-textarea\<close>, the media branch \<open>preview\<close>, \<open>code\<close> and
  \<open>content-display\<close> and no textarea.
\<close>

definition notesDocument :: dom where
  "notesDocument = [(NameDisplay, 1), (NameInput, 1), (ContentDisplay, 1), (ContentTextarea, 1)]"

definition notesDraftDocument :: dom where
  "notesDraftDocument =
     [(NameDisplay, 1), (NameInput, 1), (ContentDisplay, 1), (ContentTextarea, 1),
      (NameDisplay, 3), (NameInput, 3), (ContentDisplay, 3), (ContentTextarea, 3)]"



text \<open>Three entries of a file list: the file behind \<open>notesTxt\<close> saved again 999 ms later,
  the same 1000 ms later, and a PNG image.\<close>

definition notesAgain :: fileInput where
  "notesAgain =
     \<lparr> in_name = ''notes.txt'', in_size = 5, in_type = ''text/plain'', in_lastModified = 999,
       in_relativePath = None, rd_ok = True, rd_dataURL = ''data:text/plain;base64,aGVsbG8='',
       rd_arrayBuffer = [104, 101, 108, 108, 111], rd_text = ''hello'', new_id = 7 \<rparr>"

definition notesLater :: fileInput where
  "notesLater =
     \<lparr> in_name = ''notes.txt'', in_size = 5, in_type = ''text/plain'', in_lastModified = 1000,
       in_relativePath = None, rd_ok = True, rd_dataURL = ''data:text/plain;base64,aGVsbG8='',
       rd_arrayBuffer = [104, 101, 108, 108, 111], rd_text = ''hello'', new_id = 8 \<rparr>"

definition logoInput :: fileInput where
  "logoInput =
     \<lparr> in_name = ''logo.png'', in_size = 5, in_type = ''image/png'', in_lastModified = 0,
       in_relativePath = Some ''docs/logo.png'', rd_ok = True,
       rd_dataURL = ''data:image/png;base64,aGVsbG8='',
       rd_arrayBuffer = [104, 101, 108, 108, 111], rd_text = ''hello'', new_id = 2 \<rparr>"



section \<open>Editing content\<close>





lemma utf8Length_ascii:
  "\<forall>c\<in>set s. (of_char c :: nat) < 128 \<Longrightarrow> utf8Length s = length s"
  unfolding utf8Length_def by (induction s) simp_all

lemma saveFileContent_size_is_length:
  assumes "saveFileContent d newContent i files = (ContentUpdated, files')"
  shows "\<exists>g\<in>set files'. fid g = i \<and> content g = Str newContent \<and> fsize g = length newContent"
proof -
  have upd: "find P xs = Some x \<Longrightarrow> \<exists>y\<in>set (updateFirst P h xs). y = h x" for P h x and xs :: "fileObj list"
    by (induction xs) (auto split: if_splits)
  from assms obtain x where x: "find (\<lambda>f. fid f = i) files = Some x"
    and files': "files' = updateFirst (\<lambda>f. fid f = i)
           (\<lambda>f. f\<lparr>content := Str newContent, fsize := length newContent\<rparr>) files"
    by (auto simp: saveFileContent_def split: if_splits option.splits)
  from x have i: "fid x = i" by (auto simp: find_Some_iff)
  let ?g = "x\<lparr>content := Str newContent, fsize := length newContent\<rparr>"
  from upd [OF x, of "\<lambda>f. f\<lparr>content := Str newContent, fsize := length newContent\<rparr>"] files'
  have "?g \<in> set files'" by simp
  moreover from i have "fid ?g = i \<and> content ?g = Str newContent \<and> fsize ?g = length newContent"
    by simp
  ultimately show ?thesis by blast
qed

text \<open>
  Claim C9 says that after a successful content edit the size of the record is the byte
  length of the new content, also for content with non-ASCII characters.  The code assigns
  \<open>newContent.length\<close>, the number of UTF-16 code units (lemma
  \<open>saveFileContent_size_is_length\<close>), which is the byte length for ASCII content only
  (lemma \<open>utf8Length_ascii\<close>).  For the one-character content U+00E9 the size becomes 1,
  while the content takes 2 bytes; everywhere else \<open>size\<close> is a byte count (the
  \<open>File.size\<close> taken at ingestion, the argument \<open>bytes\<close> of \<open>formatFileSize\<close>,
  \<open>totalBytes\<close> in \<open>updateStats\<close>).
\<close>

theorem saveFileContent_size_counts_code_units:
  "saveFileContent notesDocument [CHR 0xE9] (fid notesTxt) [notesTxt]
     = (ContentUpdated, [notesTxt\<lparr>content := Str [CHR 0xE9], fsize := 1\<rparr>])
   \<and> utf8Length [CHR 0xE9] = 2"
  by (simp add: saveFileContent_def notesDocument_def getElementById_def utf8Length_def)
     (simp add: notesTxt_def)

section \<open>Renaming\<close>

text \<open>What the rename does reject: an input that is empty after trimming or that contains one
  of the nine reserved characters; the array is not touched then.\<close>

lemma saveFileName_rejects:
  assumes "trim inputValue = [] \<or> list_ex renameInvalidChar (trim inputValue)"
  shows "snd (saveFileName d inputValue i files) = files \<and>
         fst (saveFileName d inputValue i files)
           \<in> {NameElementsNotFound, FileNotFound, FilenameEmpty, InvalidCharacters}"
  using assms
  by (auto simp: saveFileName_def renameInvalidChars_def Let_def split: option.splits)

text \<open>
  Claim C7 says that a rename fails whenever the new name is empty or contains a reserved
  character or any control character, and leaves the name unchanged then.  The character
  class of \<open>saveFileName\<close> has no control characters, unlike the class of the ingestion
  check (\<open>ingestInvalidChar\<close>), which has U+0000-U+001F: the name \<open>a\<close> U+0001 \<open>b\<close> is
  accepted by the rename, and both name and path are changed, though ingestion would
  refuse a file of that name.
\<close>

theorem saveFileName_accepts_control_character:
  "saveFileName notesDocument [CHR ''a'', CHR 0x01, CHR ''b''] (fid notesTxt) [notesTxt]
     = (RenamedTo [CHR ''a'', CHR 0x01, CHR ''b''],
        [notesTxt\<lparr>name := [CHR ''a'', CHR 0x01, CHR ''b''],
                  relativePath := [CHR ''a'', CHR 0x01, CHR ''b'']\<rparr>])
   \<and> list_ex ingestInvalidChar [CHR ''a'', CHR 0x01, CHR ''b'']"
  by (simp add: saveFileName_def notesDocument_def getElementById_def trim_def isWhiteSpace_def
        renameInvalidChars_def renameInvalidChar_def ingestInvalidChar_def Let_def)
     (simp add: notesTxt_def)

text \<open>
  Claim C2 says that a rename changes the name and only the last segment of the relative
  path.  It does not: \<open>saveFileName\<close> assigns the new name to \<open>relativePath\<close> as a whole.
  Renaming the record with path \<open>docs/notes.txt\<close> to \<open>todo.txt\<close> leaves the path
  \<open>todo.txt\<close>, not \<open>docs/todo.txt\<close>.
\<close>

theorem saveFileName_discards_directory_prefix:
  "fst (saveFileName notesDocument ''todo.txt'' (fid notesTxt) [notesTxt])
     = RenamedTo ''todo.txt''
   \<and> map relativePath [notesTxt] = [''docs/notes.txt'']
   \<and> map relativePath
        (snd (saveFileName notesDocument ''todo.txt'' (fid notesTxt) [notesTxt]))
       = [''todo.txt'']
   \<and> map relativePath
        (snd (saveFileName notesDocument ''todo.txt'' (fid notesTxt) [notesTxt]))
       \<noteq> [''docs/todo.txt'']"
  by (simp add: saveFileName_def notesDocument_def getElementById_def trim_def isWhiteSpace_def
        renameInvalidChars_def renameInvalidChar_def Let_def)
     (simp add: notesTxt_def)

lemma updateFirst_at:
  "find P xs = Some x \<Longrightarrow>
   \<exists>k<length xs. xs ! k = x \<and> P x \<and> (\<forall>m<k. \<not> P (xs ! m)) \<and> updateFirst P h xs = xs[k := h x]"
proof (induction xs)
  case Nil
  then show ?case by simp
next
  case (Cons y ys)
  show ?case
  proof (cases "P y")
    case True
    with Cons.prems have "x = y" by simp
    with True have "(y # ys) ! 0 = x \<and> P x \<and> (\<forall>m<0. \<not> P ((y # ys) ! m))
        \<and> updateFirst P h (y # ys) = (y # ys)[0 := h x]" by simp
    then show ?thesis by blast
  next
    case False
    with Cons.prems have "find P ys = Some x" by simp
    from Cons.IH [OF this] obtain k where k: "k < length ys" "ys ! k = x" "P x"
      "\<forall>m<k. \<not> P (ys ! m)" "updateFirst P h ys = ys[k := h x]" by blast
    have "\<forall>m<Suc k. \<not> P ((y # ys) ! m)"
    proof (intro allI impI)
      fix m assume "m < Suc k"
      with False k(4) show "\<not> P ((y # ys) ! m)" by (cases m) simp_all
    qed
    with False k have "Suc k < length (y # ys) \<and> (y # ys) ! Suc k = x \<and> P x
        \<and> (\<forall>m<Suc k. \<not> P ((y # ys) ! m))
        \<and> updateFirst P h (y # ys) = (y # ys)[Suc k := h x]" by simp
    then show ?thesis by blast
  qed
qed

text \<open>
  Claim C2 as amended.  A successful rename sets both the name and the relative path of the
  record (the first one with the given id) to the trimmed input, so the directory prefix is
  discarded; the record keeps its position, every other record is unchanged, and the
  sequence of ids is the same.
\<close>

theorem saveFileName_success:
  assumes "saveFileName d inputValue i files = (RenamedTo n, files')"
  shows "n = trim inputValue
       \<and> (\<exists>k<length files. fid (files ! k) = i \<and> (\<forall>m<k. fid (files ! m) \<noteq> i)
             \<and> files' = files[k := (files ! k)\<lparr>name := n, relativePath := n\<rparr>])
       \<and> map fid files' = map fid files"
proof -
  from assms obtain x where x: "find (\<lambda>f. fid f = i) files = Some x"
    and n: "n = trim inputValue"
    and files': "files' = updateFirst (\<lambda>f. fid f = i)
                   (\<lambda>f. f\<lparr>name := n, relativePath := n\<rparr>) files"
    by (auto simp: saveFileName_def Let_def split: if_splits option.splits)
  from updateFirst_at [OF x, of "\<lambda>f. f\<lparr>name := n, relativePath := n\<rparr>"]
  obtain k where k: "k < length files" "files ! k = x" "fid x = i"
      "\<forall>m<k. fid (files ! m) \<noteq> i"
      "updateFirst (\<lambda>f. fid f = i) (\<lambda>f. f\<lparr>name := n, relativePath := n\<rparr>) files
         = files[k := x\<lparr>name := n, relativePath := n\<rparr>]"
    by blast
  have ids: "map fid (files[k := x\<lparr>name := n, relativePath := n\<rparr>]) = map fid files"
    using k(1,2) by (simp add: map_update list_update_same_conv)
  from k files' have "fid (files ! k) = i \<and> (\<forall>m<k. fid (files ! m) \<noteq> i)
      \<and> files' = files[k := (files ! k)\<lparr>name := n, relativePath := n\<rparr>]" by simp
  with k(1) have "\<exists>k<length files. fid (files ! k) = i \<and> (\<forall>m<k. fid (files ! m) \<noteq> i)
      \<and> files' = files[k := (files ! k)\<lparr>name := n, relativePath := n\<rparr>]" by blast
  with n ids files' k(5) show ?thesis by simp
qed

theorem saveFileName_success_witness:
  "saveFileName notesDocument ''  todo.txt '' 1 [notesTxt]
     = (RenamedTo ''todo.txt'', [notesTxt\<lparr>name := ''todo.txt'', relativePath := ''todo.txt''\<rparr>])
   \<and> ''todo.txt'' = trim ''  todo.txt ''
   \<and> map fid [notesTxt\<lparr>name := ''todo.txt'', relativePath := ''todo.txt''\<rparr>] = map fid [notesTxt]"
proof -
  have h: "saveFileName notesDocument ''  todo.txt '' 1 [notesTxt]
     = (RenamedTo ''todo.txt'', [notesTxt\<lparr>name := ''todo.txt'', relativePath := ''todo.txt''\<rparr>])"
    by (simp add: saveFileName_def notesDocument_def getElementById_def trim_def isWhiteSpace_def
        renameInvalidChars_def renameInvalidChar_def Let_def)
       (simp add: notesTxt_def)
  from saveFileName_success [OF h] h show ?thesis by simp
qed

section \<open>Duplicate detection at ingestion\<close>

lemma isDuplicate_iff:
  "isDuplicate files file \<longleftrightarrow>
   (\<exists>f\<in>set files. name f = in_name file \<and> fsize f = in_size file \<and>
                  \<bar>lastModified f - in_lastModified file\<bar> < 1000)"
  by (simp add: isDuplicate_def list_ex_iff)

lemma foldl_processFileAsync:
  "foldl processFileAsync files batch = files @ map mkFileObj (filter rd_ok batch)"
  by (induction batch arbitrary: files) (simp_all add: processFileAsync_def)

lemma handleFileSelect_rejected:
  "validateEntry files file \<noteq> None \<Longrightarrow> handleFileSelect isProcessing files [file] = files"
  by (auto simp: handleFileSelect_def)

text \<open>
  Claim C6.  An entry that agrees with some record of the array in name and size and whose
  modification time is less than 1000 ms away from the record's is flagged by the duplicate
  test and is not added; it is reported as "File already exists" whenever the size and
  type checks, which come first in the loop, let it through.  An entry that differs from
  every record in name, in size or by at least 1000 ms is not flagged by the duplicate
  test and is never rejected as a duplicate.
\<close>

theorem duplicate_detection:
  "((\<exists>f\<in>set files. name f = in_name file \<and> fsize f = in_size file \<and>
                   \<bar>lastModified f - in_lastModified file\<bar> < 1000)
      \<longrightarrow> isDuplicate files file \<and> validateEntry files file \<noteq> None
          \<and> handleFileSelect isProcessing files [file] = files
          \<and> (in_size file \<noteq> 0 \<and> in_size file \<le> maxFileSize
                \<and> (in_type file \<in> set allowedTypes \<or> isTextFile (in_name file))
              \<longrightarrow> validateEntry files file = Some FileAlreadyExists))
   \<and> ((\<forall>f\<in>set files. name f \<noteq> in_name file \<or> fsize f \<noteq> in_size file \<or>
                    1000 \<le> \<bar>lastModified f - in_lastModified file\<bar>)
      \<longrightarrow> \<not> isDuplicate files file \<and> validateEntry files file \<noteq> Some FileAlreadyExists)"
proof (intro conjI impI)
  assume ex: "\<exists>f\<in>set files. name f = in_name file \<and> fsize f = in_size file \<and>
                   \<bar>lastModified f - in_lastModified file\<bar> < 1000"
  then show dup: "isDuplicate files file" by (simp add: isDuplicate_iff)
  then show rej: "validateEntry files file \<noteq> None" by (simp add: validateEntry_def)
  from rej show "handleFileSelect isProcessing files [file] = files"
    by (rule handleFileSelect_rejected)
  assume "in_size file \<noteq> 0 \<and> in_size file \<le> maxFileSize
                \<and> (in_type file \<in> set allowedTypes \<or> isTextFile (in_name file))"
  with dup show "validateEntry files file = Some FileAlreadyExists"
    by (auto simp: validateEntry_def)
next
  assume all: "\<forall>f\<in>set files. name f \<noteq> in_name file \<or> fsize f \<noteq> in_size file \<or>
                    1000 \<le> \<bar>lastModified f - in_lastModified file\<bar>"
  then show nodup: "\<not> isDuplicate files file" by (force simp: isDuplicate_iff)
  then show "validateEntry files file \<noteq> Some FileAlreadyExists"
    by (simp add: validateEntry_def)
qed

lemma notesAgain_duplicate:
  "\<exists>f\<in>set [notesTxt]. name f = in_name notesAgain \<and> fsize f = in_size notesAgain \<and>
                   \<bar>lastModified f - in_lastModified notesAgain\<bar> < 1000"
  by (simp add: notesTxt_def notesAgain_def)

lemma notesLater_distinct:
  "\<forall>f\<in>set [notesTxt]. name f \<noteq> in_name notesLater \<or> fsize f \<noteq> in_size notesLater \<or>
                    1000 \<le> \<bar>lastModified f - in_lastModified notesLater\<bar>"
  by (simp add: notesTxt_def notesLater_def)

lemma notesAgain_checks:
  "in_size notesAgain \<noteq> 0 \<and> in_size notesAgain \<le> maxFileSize
     \<and> (in_type notesAgain \<in> set allowedTypes \<or> isTextFile (in_name notesAgain))"
  by (simp add: notesAgain_def maxFileSize_def allowedTypes_def)

theorem duplicate_detection_witness:
  "(\<exists>f\<in>set [notesTxt]. name f = in_name notesAgain \<and> fsize f = in_size notesAgain \<and>
                   \<bar>lastModified f - in_lastModified notesAgain\<bar> < 1000)
   \<and> validateEntry [notesTxt] notesAgain = Some FileAlreadyExists
   \<and> handleFileSelect False [notesTxt] [notesAgain] = [notesTxt]
   \<and> 1000 \<le> \<bar>lastModified notesTxt - in_lastModified notesLater\<bar>
   \<and> validateEntry [notesTxt] notesLater \<noteq> Some FileAlreadyExists"
proof -
  have apart: "1000 \<le> \<bar>lastModified notesTxt - in_lastModified notesLater\<bar>"
    by (simp add: notesTxt_def notesLater_def)
  from duplicate_detection [of "[notesTxt]" notesAgain False]
    notesAgain_duplicate notesAgain_checks
  have "validateEntry [notesTxt] notesAgain = Some FileAlreadyExists
      \<and> handleFileSelect False [notesTxt] [notesAgain] = [notesTxt]"
    by blast
  moreover from duplicate_detection [of "[notesTxt]" notesLater False] notesLater_distinct
  have "validateEntry [notesTxt] notesLater \<noteq> Some FileAlreadyExists"
    by blast
  ultimately show ?thesis using notesAgain_duplicate apart by blast
qed

lemma notesLater_accepted:
  "validateEntry [notesTxt] notesLater = None
   \<and> handleFileSelect False [notesTxt] [notesLater] = [notesTxt, mkFileObj notesLater]"
  by (simp add: validateEntry_def handleFileSelect_def processFileAsync_def isDuplicate_def
        maxFileSize_def allowedTypes_def ingestInvalidChar_def renameInvalidChar_def
        notesLater_def notesTxt_def)

section \<open>The duplicate invariant\<close>

lemma noDuplicates_append:
  "noDuplicates (xs @ ys) \<longleftrightarrow>
   noDuplicates xs \<and> noDuplicates ys \<and> (\<forall>x\<in>set xs. \<forall>y\<in>set ys. \<not> equivalent x y)"
  by (induction xs) (auto simp: list_ex_iff)

lemma noDuplicates_filter:
  "noDuplicates (map h xs) \<Longrightarrow> noDuplicates (map h (filter P xs))"
  by (induction xs) (auto simp: list_ex_iff)

lemma accepted_not_equivalent:
  assumes "validateEntry files file = None" and "f \<in> set files"
  shows "\<not> equivalent f (mkFileObj file)"
proof -
  from assms(1) have "\<not> isDuplicate files file"
    by (auto simp: validateEntry_def split: if_splits)
  with assms(2) show ?thesis
    by (auto simp: isDuplicate_iff equivalent_def mkFileObj_def)
qed

text \<open>
  Claim C5 as amended.  Ingestion keeps the invariant when the entries of the batch are
  themselves pairwise different in name, size or (by 1000 ms or more) modification time:
  if no two records of the array are equivalent before the batch, none are after it.
  Validation compares an entry with the records present when the batch starts, which is
  why the entries of one batch must differ from each other (see
  \<open>handleFileSelect_same_batch\<close>).  Nothing is claimed for renames and content edits,
  which do not repeat the test.
\<close>

theorem handleFileSelect_noDuplicates:
  assumes "noDuplicates files" and "noDuplicates (map mkFileObj batch)"
  shows "noDuplicates (handleFileSelect isProcessing files batch)"
proof (cases "batch = [] \<or> isProcessing")
  case True
  with assms(1) show ?thesis by (auto simp: handleFileSelect_def)
next
  case False
  let ?valid = "filter (\<lambda>file. validateEntry files file = None) batch"
  let ?new = "map mkFileObj (filter rd_ok ?valid)"
  from False have result: "handleFileSelect isProcessing files batch = files @ ?new"
    by (simp add: handleFileSelect_def foldl_processFileAsync)
  have "filter rd_ok ?valid
      = filter (\<lambda>file. validateEntry files file = None \<and> rd_ok file) batch"
    by (simp add: conj_commute)
  with noDuplicates_filter [OF assms(2)] have new: "noDuplicates ?new" by simp
  have cross: "\<forall>x\<in>set files. \<forall>y\<in>set ?new. \<not> equivalent x y"
    using accepted_not_equivalent by auto
  from assms(1) new cross result show ?thesis by (simp add: noDuplicates_append)
qed

theorem handleFileSelect_noDuplicates_witness:
  "noDuplicates [notesTxt] \<and> noDuplicates (map mkFileObj [notesAgain, logoInput])
   \<and> noDuplicates (handleFileSelect False [notesTxt] [notesAgain, logoInput])
   \<and> handleFileSelect False [notesTxt] [notesAgain, logoInput] = [notesTxt, mkFileObj logoInput]"
proof -
  have h1: "noDuplicates [notesTxt]" by simp
  have h2: "noDuplicates (map mkFileObj [notesAgain, logoInput])"
    by (simp add: equivalent_def mkFileObj_def notesAgain_def logoInput_def)
  have r: "handleFileSelect False [notesTxt] [notesAgain, logoInput] = [notesTxt, mkFileObj logoInput]"
    by (simp add: validateEntry_def handleFileSelect_def processFileAsync_def isDuplicate_def
        maxFileSize_def allowedTypes_def ingestInvalidChar_def renameInvalidChar_def
        logoInput_def notesAgain_def notesTxt_def)
  from handleFileSelect_noDuplicates [OF h1 h2, of False] h1 h2 r show ?thesis by simp
qed

text \<open>
  Claim C5 says that the invariant holds at every point of a session and is preserved by
  rename and content edit.  A rename does not look for duplicates: renaming
  \<open>draft.txt\<close> to \<open>notes.txt\<close>, next to a record \<open>notes.txt\<close> of the same size and
  modification time, succeeds and leaves two equivalent records.
\<close>

theorem saveFileName_breaks_noDuplicates:
  "noDuplicates [notesTxt, draftTxt]
   \<and> fst (saveFileName notesDraftDocument ''notes.txt'' (fid draftTxt)
           [notesTxt, draftTxt]) = RenamedTo ''notes.txt''
   \<and> \<not> noDuplicates (snd (saveFileName notesDraftDocument ''notes.txt''
                            (fid draftTxt) [notesTxt, draftTxt]))"
proof -
  note d = notesDraftDocument_def
  have t: "trim ''notes.txt'' = ''notes.txt''" by (simp add: trim_def isWhiteSpace_def)
  have v: "\<not> renameInvalidChars ''notes.txt''"
    by (simp add: renameInvalidChars_def renameInvalidChar_def)
  have r: "saveFileName notesDraftDocument ''notes.txt'' (fid draftTxt)
             [notesTxt, draftTxt]
           = (RenamedTo ''notes.txt'',
              [notesTxt, draftTxt\<lparr>name := ''notes.txt'', relativePath := ''notes.txt''\<rparr>])"
    unfolding saveFileName_def d t using v
    by (simp add: getElementById_def Let_def notesTxt_def draftTxt_def)
  show ?thesis unfolding r
    by (simp add: equivalent_def notesTxt_def draftTxt_def)
qed

text \<open>A content edit sets the size and can make two records equivalent in the same way.\<close>

lemma saveFileContent_breaks_noDuplicates:
  "noDuplicates [notesTxt, notesTxt\<lparr>fid := 4, fsize := 7, content := Str ''goodbye''\<rparr>]
   \<and> \<not> noDuplicates
        (snd (saveFileContent
                [(NameDisplay, 1), (NameInput, 1), (ContentDisplay, 1), (ContentTextarea, 1),
                 (NameDisplay, 4), (NameInput, 4), (ContentDisplay, 4), (ContentTextarea, 4)]
                ''hello'' 4
                [notesTxt, notesTxt\<lparr>fid := 4, fsize := 7, content := Str ''goodbye''\<rparr>]))"
proof -
  let ?fs = "[notesTxt, notesTxt\<lparr>fid := 4, fsize := 7, content := Str ''goodbye''\<rparr>]"
  let ?d = "[(NameDisplay, 1), (NameInput, 1), (ContentDisplay, 1), (ContentTextarea, 1),
             (NameDisplay, 4), (NameInput, 4), (ContentDisplay, 4), (ContentTextarea, 4)]"
  have r: "saveFileContent ?d ''hello'' 4 ?fs
      = (ContentUpdated, [notesTxt, notesTxt\<lparr>fid := 4, fsize := 5, content := Str ''hello''\<rparr>])"
    unfolding saveFileContent_def
    by (simp add: getElementById_def notesTxt_def)
  show ?thesis unfolding r by (simp add: equivalent_def notesTxt_def)
qed

text \<open>Two equivalent entries in one batch are both accepted.\<close>

lemma handleFileSelect_same_batch:
  "noDuplicates [] \<and> \<not> noDuplicates (handleFileSelect False [] [notesAgain, notesAgain])"
  by (simp add: validateEntry_def handleFileSelect_def processFileAsync_def isDuplicate_def
        maxFileSize_def allowedTypes_def ingestInvalidChar_def renameInvalidChar_def
        equivalent_def mkFileObj_def notesAgain_def)

section \<open>Search matches\<close>

text \<open>The loop of \<open>getMatchPositions\<close> collects every position at which the term occurs in
  the lower-cased text, overlapping occurrences included, in increasing order.\<close>

lemma short_no_match:
  assumes short: "length s < i + length t" and ne: "t \<noteq> []"
  shows "take (length t) (drop i s) \<noteq> t"
proof
  assume eq: "take (length t) (drop i s) = t"
  have "length (take (length t) (drop i s)) \<le> length s - i" by simp
  with eq have "length t \<le> length s - i" by simp
  moreover from ne have "0 < length t" by simp
  ultimately have "i + length t \<le> length s" by linarith
  with short show False by simp
qed

lemma filter_upt_first:
  "filter P [p..<n] = i # rest \<Longrightarrow> p \<le> i \<and> i < n \<and> rest = filter P [Suc i..<n]"
proof (induction "n - p" arbitrary: p)
  case 0
  then show ?case by simp
next
  case (Suc d)
  then have lt: "p < n" by linarith
  then have unfold: "[p..<n] = p # [Suc p..<n]" by (simp add: upt_conv_Cons)
  show ?case
  proof (cases "P p")
    case True
    with Suc.prems unfold lt show ?thesis by auto
  next
    case False
    with Suc.prems unfold have "filter P [Suc p..<n] = i # rest" by simp
    moreover from Suc.hyps(2) have "d = n - Suc p" by linarith
    ultimately have "Suc p \<le> i \<and> i < n \<and> rest = filter P [Suc i..<n]"
      using Suc.hyps(1) by blast
    then show ?thesis by simp
  qed
qed

lemma indexOf_first_occurrence:
  "s \<noteq> [] \<Longrightarrow>
   indexOf str s pos
     = (case filter (\<lambda>i. take (length s) (drop i str) = s) [pos..<length str] of
          [] \<Rightarrow> None | i # _ \<Rightarrow> Some i)"
proof (induction str s pos rule: indexOf.induct)
  case (1 str s pos)
  note unfold = indexOf.simps [of str s pos]
  let ?P = "\<lambda>i. take (length s) (drop i str) = s"
  show ?case
  proof (cases "length str < pos + length s")
    case True
    have "\<forall>i\<in>set [pos..<length str]. \<not> ?P i"
    proof
      fix i assume "i \<in> set [pos..<length str]"
      with True have "length str < i + length s" by simp
      from short_no_match [OF this "1.prems"] show "\<not> ?P i" .
    qed
    then have "filter ?P [pos..<length str] = []" by (simp add: filter_empty_conv)
    with True "1.prems" unfold show ?thesis by simp
  next
    case False
    note inside = this
    from "1.prems" have "0 < length s" by simp
    with inside have "pos < length str" by linarith
    then have upt: "[pos..<length str] = pos # [Suc pos..<length str]"
      by (simp add: upt_conv_Cons)
    show ?thesis
    proof (cases "?P pos")
      case True
      with inside "1.prems" unfold upt show ?thesis by simp
    next
      case False
      with inside "1.prems" unfold have "indexOf str s pos = indexOf str s (Suc pos)" by simp
      also from "1.IH" "1.prems" inside False
      have "\<dots> = (case filter ?P [Suc pos..<length str] of [] \<Rightarrow> None | i # _ \<Rightarrow> Some i)"
        by simp
      also from False upt have "filter ?P [Suc pos..<length str] = filter ?P [pos..<length str]"
        by simp
      finally show ?thesis .
    qed
  qed
qed

lemma matchLoop_collects:
  "s \<noteq> [] \<Longrightarrow>
   matchLoop str s (indexOf str s pos) acc
     = acc @ filter (\<lambda>i. take (length s) (drop i str) = s) [pos..<length str]"
proof (induction "length str - pos" arbitrary: pos acc rule: less_induct)
  case less
  let ?P = "\<lambda>i. take (length s) (drop i str) = s"
  note first = indexOf_first_occurrence [OF less.prems, of str pos]
  show ?case
  proof (cases "filter ?P [pos..<length str]")
    case Nil
    with first show ?thesis by simp
  next
    case (Cons i rest)
    from filter_upt_first [OF Cons]
    have i: "pos \<le> i" "i < length str" and rest: "rest = filter ?P [Suc i..<length str]"
      by simp_all
    from i have "length str - Suc i < length str - pos" by linarith
    from less.hyps [OF this less.prems, of "acc @ [i]"] rest
    have "matchLoop str s (indexOf str s (Suc i)) (acc @ [i]) = acc @ i # rest" by simp
    with first Cons less.prems show ?thesis by simp
  qed
qed

lemma getMatchPositions_occurrences:
  "t \<noteq> [] \<Longrightarrow> getMatchPositions s t = occurrences (toLowerCase s) t"
proof (cases "s = []")
  case True
  then show ?thesis by (simp add: getMatchPositions_def occurrences_def toLowerCase_def)
next
  case False
  assume "t \<noteq> []"
  with False matchLoop_collects [of t "toLowerCase s" 0 "[]"] show ?thesis
    by (simp add: getMatchPositions_def occurrences_def Let_def)
qed

lemma foldl_append_concat:
  "foldl (\<lambda>acc x. acc @ g x) a xs = a @ concat (map g xs)"
  by (induction xs arbitrary: a) simp_all

lemma matchesOfFile_spec:
  "t \<noteq> [] \<Longrightarrow> matchesOfFile t f = nameMatches t f @ contentMatches t f"
  by (cases "content f")
     (simp_all add: matchesOfFile_def nameMatches_def contentMatches_def
        getMatchPositions_occurrences)

text \<open>
  Claim C4 as amended.  For every record array and non-empty term, the recomputation
  collects, record by record in the order of the array, first the occurrences of the term
  in the lower-cased name and then, when the content is a string and the record is not
  flagged binary, the occurrences in the lower-cased content.  The test for the content
  is \<open>typeof file.content === "string" && !file.isBinary\<close>; it lets the data URLs of
  image, video and audio records through.
\<close>

theorem findAllMatches_spec:
  assumes "t \<noteq> []"
  shows "findAllMatches t files = concat (map (\<lambda>f. nameMatches t f @ contentMatches t f) files)"
  using assms by (simp add: findAllMatches_def foldl_append_concat matchesOfFile_spec)

text \<open>The image record of the examples is the record that ingestion builds from a PNG file:
  its content is the data URL delivered by \<open>readAsDataURL\<close>.\<close>

lemma logoPng_ingested: "mkFileObj logoInput = logoPng"
  by code_simp

text \<open>
  Claim C4 says that the content of image, video, audio and binary records contributes no
  matches.  The content of an image record is a data URL, a string, and the record is not
  flagged binary, so it is scanned: the term \<open>base64\<close> is found at offset 15 of the content
  of the image record.
\<close>

theorem findAllMatches_scans_image_content:
  "mediaTypeOf logoPng = Image
   \<and> findAllMatches ''base64'' [logoPng]
       = [\<lparr> fileId = 2, mtype = ContentField, position = 15, matchIndex = 0 \<rparr>]"
  by code_simp

theorem findAllMatches_spec_witness:
  "''o'' \<noteq> []
   \<and> findAllMatches ''o'' [notesTxt, logoPng]
       = concat (map (\<lambda>f. nameMatches ''o'' f @ contentMatches ''o'' f) [notesTxt, logoPng])
   \<and> findAllMatches ''o'' [notesTxt, logoPng]
       = [\<lparr> fileId = 1, mtype = NameField, position = 1, matchIndex = 0 \<rparr>,
          \<lparr> fileId = 1, mtype = ContentField, position = 4, matchIndex = 0 \<rparr>,
          \<lparr> fileId = 2, mtype = NameField, position = 1, matchIndex = 0 \<rparr>,
          \<lparr> fileId = 2, mtype = NameField, position = 3, matchIndex = 1 \<rparr>]"
proof -
  have ne: "''o'' \<noteq> []" by simp
  have v: "concat (map (\<lambda>f. nameMatches ''o'' f @ contentMatches ''o'' f) [notesTxt, logoPng])
       = [\<lparr> fileId = 1, mtype = NameField, position = 1, matchIndex = 0 \<rparr>,
          \<lparr> fileId = 1, mtype = ContentField, position = 4, matchIndex = 0 \<rparr>,
          \<lparr> fileId = 2, mtype = NameField, position = 1, matchIndex = 0 \<rparr>,
          \<lparr> fileId = 2, mtype = NameField, position = 3, matchIndex = 1 \<rparr>]"
    by code_simp
  from findAllMatches_spec [OF ne, of "[notesTxt, logoPng]"] ne v show ?thesis by simp
qed

section \<open>The rendered record set\<close>

text \<open>
  Claim C10.  While the stored search term (the lower-cased value of the search box) is not
  empty, the records handed to the view are exactly the records of the array, in their
  order, whose name contains the term case-insensitively or whose content is a string that
  does; the flags of the record play no part, so a media record whose data URL contains the
  term is kept.
\<close>

theorem filteredFiles_spec:
  assumes "searchTerm = handleSearch searchValue" and "searchTerm \<noteq> []"
  shows "filteredFiles searchTerm files
     = filter (\<lambda>f. containsCI (name f) searchValue \<or>
                    (\<exists>s. content f = Str s \<and> containsCI s searchValue)) files"
proof -
  have "(case content f of Str s \<Rightarrow> includesStr (toLowerCase s) searchTerm | Buf _ \<Rightarrow> False)
      = (\<exists>s. content f = Str s \<and> containsCI s searchValue)" for f :: fileObj
    using assms(1)
    by (cases "content f") (simp_all add: includesStr_def sublist_def containsCI_def handleSearch_def)
  moreover have "includesStr (toLowerCase (name f)) searchTerm = containsCI (name f) searchValue" for f :: fileObj
    using assms(1) by (simp add: includesStr_def sublist_def containsCI_def handleSearch_def)
  ultimately show ?thesis using assms(2) by (simp add: filteredFiles_def)
qed

theorem filteredFiles_spec_witness:
  "''png'' = handleSearch ''PNG'' \<and> ''png'' \<noteq> []
   \<and> filteredFiles ''png'' [notesTxt, logoPng]
       = filter (\<lambda>f. containsCI (name f) ''PNG'' \<or>
                      (\<exists>s. content f = Str s \<and> containsCI s ''PNG'')) [notesTxt, logoPng]
   \<and> filteredFiles ''png'' [notesTxt, logoPng] = [logoPng]"
proof -
  have h1: "''png'' = handleSearch ''PNG''" by code_simp
  have h2: "''png'' \<noteq> []" by simp
  have v: "filteredFiles ''png'' [notesTxt, logoPng] = [logoPng]" by code_simp
  from filteredFiles_spec [OF h1 h2, of "[notesTxt, logoPng]"] h1 h2 v show ?thesis by simp
qed

section \<open>The tree of the tree view\<close>










section \<open>Reordering\<close>






end
